theory Spec2Isabelle
  imports Main "HOL-Library.Word" "HOL-Library.Signed_Division"
begin

unbundle bit_operations_syntax

section \<open>The UC8179 partial refresh routine of \<open>partial-refresh.h\<close>\<close>

text \<open>
  The repository's only routine is \<open>updatePartial(EPaper* epd)\<close>. It drives a display
  object of the vendor library through its methods (\<open>frameBuffer\<close>, \<open>width\<close>,
  \<open>height\<close>, \<open>startWrite\<close>, \<open>writecommand\<close>, \<open>writedata\<close>, \<open>endWrite\<close>) and
  the Arduino core through \<open>delay\<close> and \<open>digitalRead\<close>. The vendor library is not part
  of the repository, so the display is modelled the way a recording test double would be:
  every call that acts on the hardware is appended to one trace, in the order of the calls.
\<close>

subsection \<open>Data model\<close>

type_synonym u8 = "8 word"

text \<open>The routine's local variables are C \<open>int\<close>s, 32 bits wide on both supported targets
  (ESP32-C3 and ESP32-S3).\<close>

type_synonym c_int = "32 word"

datatype event =
    StartWrite
  | EndWrite
  | WriteCommand u8
  | WriteData u8
  | Delay nat

text \<open>
  The display handle. \<open>frameBuffer\<close> is what \<open>epd->frameBuffer(0)\<close> returns: \<open>None\<close> is
  the null pointer, \<open>Some fb\<close> a raw \<open>uint8_t*\<close>, where \<open>fb i\<close> is the byte the
  expression \<open>fb[i]\<close> reads. The routine never learns a length for the buffer and checks no
  bound, so the memory behind the pointer is a total function of the offset. \<open>width\<close> and
  \<open>height\<close> are the reported dimensions as stored into the routine's \<open>int\<close> locals.
  \<open>trace\<close> is the record of effects so far, oldest first.
\<close>

record EPaper =
  frameBuffer :: "(nat \<Rightarrow> u8) option"
  width :: c_int
  height :: c_int
  trace :: "event list"

subsection \<open>The operations the routine calls\<close>

definition startWrite :: "EPaper \<Rightarrow> EPaper" where
  "startWrite epd = epd\<lparr>trace := trace epd @ [StartWrite]\<rparr>"

definition endWrite :: "EPaper \<Rightarrow> EPaper" where
  "endWrite epd = epd\<lparr>trace := trace epd @ [EndWrite]\<rparr>"

definition writecommand :: "u8 \<Rightarrow> EPaper \<Rightarrow> EPaper" where
  "writecommand c epd = epd\<lparr>trace := trace epd @ [WriteCommand c]\<rparr>"

definition writedata :: "u8 \<Rightarrow> EPaper \<Rightarrow> EPaper" where
  "writedata d epd = epd\<lparr>trace := trace epd @ [WriteData d]\<rparr>"

text \<open>Arduino's \<open>delay(ms)\<close>. It is recorded in the same trace, so that the position of a
  pause among the bus operations stays visible.\<close>

definition delay :: "nat \<Rightarrow> EPaper \<Rightarrow> EPaper" where
  "delay ms epd = epd\<lparr>trace := trace epd @ [Delay ms]\<rparr>"

subsection \<open>Integer arithmetic of the routine\<close>

text \<open>C's \<open>/\<close> on \<open>int\<close> truncates towards zero; \<open>sdiv\<close> on \<open>int\<close> is that division.\<close>

definition c_div :: "c_int \<Rightarrow> c_int \<Rightarrow> c_int" where
  "c_div a b = word_of_int (sint a sdiv sint b)"

text \<open>
  Lines 29 to 31: \<open>int bufSize = (width * height) / 8\<close>. The product is taken in \<open>int\<close>;
  where it leaves the 32-bit range the C++ standard leaves the result open, and the model
  takes the two's complement wrap-around the targets' multiply instruction produces.
\<close>

definition bufSize :: "EPaper \<Rightarrow> c_int" where
  "bufSize epd = c_div (width epd * height epd) 8"

subsection \<open>The streaming loop\<close>

text \<open>
  Lines 54 to 56: \<open>for (int i = 0; i < bufSize; i++) epd->writedata(~fb[i])\<close>. The
  comparison is signed. \<open>fb[i]\<close> is promoted to \<open>int\<close> before \<open>~\<close> is applied, and the
  result is cut back to a byte by the \<open>uint8_t\<close> parameter of \<open>writedata\<close>.
\<close>

function stream_loop :: "(nat \<Rightarrow> u8) \<Rightarrow> c_int \<Rightarrow> c_int \<Rightarrow> EPaper \<Rightarrow> EPaper" where
  "stream_loop fb i n epd =
     (if i <s n
      then stream_loop fb (i + 1) n
             (writedata (ucast (NOT (ucast (fb (nat (sint i))) :: c_int))) epd)
      else epd)"
  by pat_completeness auto

text \<open>The counter stays below \<open>n\<close>, so \<open>i + 1\<close> never wraps and the distance to \<open>n\<close>
  shrinks with every round.\<close>

termination stream_loop
proof (relation "measure (\<lambda>(fb, i, n, epd). nat (sint n - sint i))")
  show "wf (measure (\<lambda>(fb, i, n, epd). nat (sint n - sint i)))" by simp
next
  fix fb :: "nat \<Rightarrow> u8" and i n :: c_int and epd :: EPaper
  assume less: "i <s n"
  then have lt: "sint i < sint n" by (simp add: word_sless_alt)
  have ub: "sint n < 2 ^ 31" using sint_lt [of n] by simp
  have lb: "- (2 ^ 31) \<le> sint i" using sint_ge [of i] by simp
  have "sint (i + 1) = signed_take_bit 31 (sint i + 1)"
    by (simp add: sint_word_ariths)
  also have "\<dots> = sint i + 1"
    using lt ub lb by (intro signed_take_bit_int_eq_self) auto
  finally have "sint (i + 1) = sint i + 1" .
  with lt show "((fb, i + 1, n, writedata (ucast (NOT (ucast (fb (nat (sint i))) :: c_int))) epd),
              (fb, i, n, epd)) \<in> measure (\<lambda>(fb, i, n, epd). nat (sint n - sint i))"
    by simp
qed

declare stream_loop.simps [simp del]

subsection \<open>The busy wait\<close>

text \<open>
  Lines 63 to 65: \<open>while (digitalRead(TFT_BUSY) == 0) delay(10)\<close>. The busy line is an
  input of the environment: \<open>busy k\<close> is the value the \<open>k\<close>-th call of \<open>digitalRead\<close>
  returns, counted from 0 within one call of the routine. The loop has no bound, so it is a
  partial function: \<open>None\<close> stands for a loop that never ends.
\<close>

partial_function (option) wait_busy :: "(nat \<Rightarrow> int) \<Rightarrow> nat \<Rightarrow> EPaper \<Rightarrow> EPaper option" where
  "wait_busy busy k epd =
     (if busy k = 0 then wait_busy busy (Suc k) (delay 10 epd) else Some epd)"

declare wait_busy.simps [code]

subsection \<open>The routine\<close>

definition updatePartial :: "(nat \<Rightarrow> int) \<Rightarrow> EPaper \<Rightarrow> EPaper option" where
  "updatePartial busy epd =
     (case frameBuffer epd of
        None \<Rightarrow> Some epd
      | Some fb \<Rightarrow>
          (let n = bufSize epd;
               epd = startWrite epd;
               epd = writecommand 0x00 epd;
               epd = writedata 0x1F epd;
               epd = writecommand 0x50 epd;
               epd = writedata 0x10 epd;
               epd = writedata 0x07 epd;
               epd = writecommand 0xE0 epd;
               epd = writedata 0x02 epd;
               epd = writecommand 0xE5 epd;
               epd = writedata 0x5A epd;
               epd = writecommand 0x13 epd;
               epd = stream_loop fb 0 n epd;
               epd = writecommand 0x12 epd;
               epd = delay 10 epd
           in map_option endWrite (wait_busy busy 0 epd)))"

subsection \<open>The routine observed while it runs\<close>

text \<open>
  A call that never returns has still acted on the display. To see what, the same routine
  is run with the busy wait cut off after \<open>fuel\<close> readings of the busy line: the result
  is the display as the call has left it so far, marked \<open>Returned\<close> when the call has come
  back and \<open>Polling\<close> when it is still in the loop of lines 63 to 65.
\<close>

datatype progress = Returned EPaper | Polling EPaper

fun state_of :: "progress \<Rightarrow> EPaper" where
  "state_of (Returned epd) = epd"
| "state_of (Polling epd) = epd"

fun wait_busy_upto :: "nat \<Rightarrow> (nat \<Rightarrow> int) \<Rightarrow> nat \<Rightarrow> EPaper \<Rightarrow> progress" where
  "wait_busy_upto 0 busy k epd = Polling epd"
| "wait_busy_upto (Suc fuel) busy k epd =
     (if busy k = 0 then wait_busy_upto fuel busy (Suc k) (delay 10 epd) else Returned epd)"

definition updatePartial_upto :: "nat \<Rightarrow> (nat \<Rightarrow> int) \<Rightarrow> EPaper \<Rightarrow> progress" where
  "updatePartial_upto fuel busy epd =
     (case frameBuffer epd of
        None \<Rightarrow> Returned epd
      | Some fb \<Rightarrow>
          (let n = bufSize epd;
               epd = startWrite epd;
               epd = writecommand 0x00 epd;
               epd = writedata 0x1F epd;
               epd = writecommand 0x50 epd;
               epd = writedata 0x10 epd;
               epd = writedata 0x07 epd;
               epd = writecommand 0xE0 epd;
               epd = writedata 0x02 epd;
               epd = writecommand 0xE5 epd;
               epd = writedata 0x5A epd;
               epd = writecommand 0x13 epd;
               epd = stream_loop fb 0 n epd;
               epd = writecommand 0x12 epd;
               epd = delay 10 epd
           in (case wait_busy_upto fuel busy 0 epd of
                 Returned epd \<Rightarrow> Returned (endWrite epd)
               | Polling epd \<Rightarrow> Polling epd)))"

subsection \<open>Observations on a trace\<close>

text \<open>The events a call has added to the trace.\<close>

definition new_events :: "EPaper \<Rightarrow> EPaper \<Rightarrow> event list" where
  "new_events before after = drop (length (trace before)) (trace after)"

fun on_bus :: "event \<Rightarrow> bool" where
  "on_bus (WriteCommand c) = True"
| "on_bus (WriteData d) = True"
| "on_bus e = False"

text \<open>The command and data bytes of a trace, in order: what the controller receives.\<close>

definition emitted :: "event list \<Rightarrow> event list" where
  "emitted es = filter on_bus es"

fun data_run :: "event list \<Rightarrow> u8 list" where
  "data_run (WriteData d # es) = d # data_run es"
| "data_run es = []"

text \<open>The data bytes that follow the first occurrence of command \<open>c\<close>, up to the next
  event that is not a data byte.\<close>

fun data_after :: "u8 \<Rightarrow> event list \<Rightarrow> u8 list" where
  "data_after c [] = []"
| "data_after c (e # es) = (if e = WriteCommand c then data_run es else data_after c es)"

fun is_delay :: "event \<Rightarrow> bool" where
  "is_delay (Delay ms) = True"
| "is_delay e = False"

subsection \<open>The protocol in the words of the specification\<close>

text \<open>The fixed configuration sequence of the register table: four commands, the second
  with two parameter bytes, the others with one.\<close>

definition config_sequence :: "event list" where
  "config_sequence =
     [WriteCommand 0x00, WriteData 0x1F,
      WriteCommand 0x50, WriteData 0x10, WriteData 0x07,
      WriteCommand 0xE0, WriteData 0x02,
      WriteCommand 0xE5, WriteData 0x5A]"

text \<open>The first \<open>n\<close> bytes of the framebuffer, each complemented.\<close>

definition inverted_image :: "(nat \<Rightarrow> u8) \<Rightarrow> nat \<Rightarrow> u8 list" where
  "inverted_image fb n = map (\<lambda>i. NOT (fb i)) [0..<n]"

text \<open>One complete refresh cycle, steps 3 to 8 of the component design, for a transfer of
  \<open>n\<close> bytes and a panel that reports busy \<open>polls\<close> times before it reports ready.\<close>

definition refresh_cycle :: "(nat \<Rightarrow> u8) \<Rightarrow> nat \<Rightarrow> nat \<Rightarrow> event list" where
  "refresh_cycle fb n polls =
     [StartWrite] @ config_sequence @ [WriteCommand 0x13] @
     map WriteData (inverted_image fb n) @
     [WriteCommand 0x12, Delay 10] @ replicate polls (Delay 10) @ [EndWrite]"

text \<open>The contents of the framebuffer: the \<open>bufSize\<close> bytes behind the pointer that
  make up the image, first to last; \<open>None\<close> when there is no framebuffer.\<close>

definition frame_contents :: "EPaper \<Rightarrow> u8 list option" where
  "frame_contents epd =
     map_option (\<lambda>fb. map fb [0..<nat (sint (bufSize epd))]) (frameBuffer epd)"

text \<open>What the controller receives during one call; \<open>None\<close> when the call does not
  return.\<close>

definition emitted_by :: "(nat \<Rightarrow> int) \<Rightarrow> EPaper \<Rightarrow> event list option" where
  "emitted_by busy epd = map_option (\<lambda>epd'. emitted (new_events epd epd')) (updatePartial busy epd)"

text \<open>Reading \<open>n\<close> pairs of one command byte and one data byte off the front of a stream:
  the rest of the stream, or \<open>None\<close> when the stream does not start with \<open>n\<close> such pairs.\<close>

fun command_data_pairs :: "nat \<Rightarrow> event list \<Rightarrow> event list option" where
  "command_data_pairs 0 es = Some es"
| "command_data_pairs (Suc n) (WriteCommand c # WriteData d # es) = command_data_pairs n es"
| "command_data_pairs (Suc n) es = None"

subsection \<open>Sample displays and busy lines\<close>

definition sample_fb :: "nat \<Rightarrow> u8" where
  "sample_fb i = (if i = 0 then 0x0F else 0xA5)"

definition blank_fb :: "nat \<Rightarrow> u8" where
  "blank_fb i = 0"

text \<open>A 4 by 4 display: two bytes of framebuffer.\<close>

definition small_panel :: EPaper where
  "small_panel = \<lparr>frameBuffer = Some sample_fb, width = 4, height = 4, trace = []\<rparr>"

text \<open>A second 4 by 4 display. Its framebuffer holds the same two bytes as that of
  \<open>small_panel\<close>, the memory behind them differs, and it has a history.\<close>

definition other_fb :: "nat \<Rightarrow> u8" where
  "other_fb i = (if i = 0 then 0x0F else if i = 1 then 0xA5 else 0x3C)"

definition other_panel :: EPaper where
  "other_panel =
     \<lparr>frameBuffer = Some other_fb, width = 4, height = 4, trace = [StartWrite, EndWrite]\<rparr>"

text \<open>The supported 7.5 inch panel, 800 by 480.\<close>

definition panel_800x480 :: EPaper where
  "panel_800x480 = \<lparr>frameBuffer = Some blank_fb, width = 800, height = 480, trace = []\<rparr>"

text \<open>A display whose framebuffer is not allocated.\<close>

definition null_panel :: EPaper where
  "null_panel = \<lparr>frameBuffer = None, width = 800, height = 480, trace = []\<rparr>"

text \<open>A display that reports no width.\<close>

definition flat_panel :: EPaper where
  "flat_panel = \<lparr>frameBuffer = Some sample_fb, width = 0, height = 480, trace = []\<rparr>"

text \<open>Busy for two readings, then ready.\<close>

definition busy_twice :: "nat \<Rightarrow> int" where
  "busy_twice k = (if k < 2 then 0 else 1)"

definition ready_at_once :: "nat \<Rightarrow> int" where
  "ready_at_once k = 1"

definition always_busy :: "nat \<Rightarrow> int" where
  "always_busy k = 0"

section \<open>Properties\<close>

subsection \<open>Arithmetic\<close>

lemma sint_succ:
  fixes i n :: c_int
  assumes "i <s n"
  shows "sint (i + 1) = sint i + 1"
proof -
  from assms have lt: "sint i < sint n" by (simp add: word_sless_alt)
  have ub: "sint n < 2 ^ 31" using sint_lt [of n] by simp
  have lb: "- (2 ^ 31) \<le> sint i" using sint_ge [of i] by simp
  have "sint (i + 1) = signed_take_bit 31 (sint i + 1)"
    by (simp add: sint_word_ariths)
  also have "\<dots> = sint i + 1"
    using lt ub lb by (intro signed_take_bit_int_eq_self) auto
  finally show ?thesis .
qed

lemma not_promoted: "ucast (NOT (ucast (b :: u8) :: c_int)) = NOT b"
  by (rule bit_word_eqI) (auto simp add: bit_simps)

text \<open>Wrapping a product to 32 bits moves it by a multiple of \<open>2 ^ 32\<close>, which leaves
  divisibility by 8 untouched.\<close>

lemma signed_take_bit_31_shape:
  "signed_take_bit 31 (x::int) = x - 2 ^ 32 * ((x + 2 ^ 31) div 2 ^ 32)"
proof -
  have "signed_take_bit 31 x = (x + 2 ^ 31) mod 2 ^ 32 - 2 ^ 31"
    by (simp add: signed_take_bit_eq_take_bit_shift take_bit_eq_mod)
  also have "(x + 2 ^ 31) mod 2 ^ 32 = (x + 2 ^ 31) - 2 ^ 32 * ((x + 2 ^ 31) div 2 ^ 32)"
    by (simp add: minus_mult_div_eq_mod)
  finally show ?thesis by simp
qed

lemma dvd8_wrap:
  assumes "8 dvd (x::int)"
  shows "8 dvd signed_take_bit 31 x"
proof -
  have "(8::int) dvd 2 ^ 32 * ((x + 2 ^ 31) div 2 ^ 32)" by simp
  with assms have "8 dvd x - 2 ^ 32 * ((x + 2 ^ 31) div 2 ^ 32)" by (rule dvd_diff)
  then show ?thesis by (simp only: signed_take_bit_31_shape)
qed

lemma sdiv_exact: "(8::int) dvd p \<Longrightarrow> p sdiv 8 * 8 = p"
  by (simp add: signed_divide_int_eq_divide_int)

lemma c_div_exact:
  fixes p :: c_int
  assumes "8 dvd sint p"
  shows "c_div p 8 * 8 = p" and "sint (c_div p 8) * 8 = sint p"
proof -
  have ex: "sint p sdiv 8 * 8 = sint p" using assms by (rule sdiv_exact)
  have "c_div p 8 * 8 = word_of_int (sint p sdiv 8 * 8)"
    by (simp add: c_div_def)
  then show "c_div p 8 * 8 = p" by (simp add: ex)
  have lo: "- (2 ^ 31) \<le> sint p" using sint_ge [of p] by simp
  have hi: "sint p < 2 ^ 31" using sint_lt [of p] by simp
  have "sint (c_div p 8) = signed_take_bit 31 (sint p sdiv 8)"
    by (simp add: c_div_def sint_sbintrunc')
  also have "\<dots> = sint p sdiv 8"
    using ex lo hi by (intro signed_take_bit_int_eq_self) linarith+
  finally show "sint (c_div p 8) * 8 = sint p" using ex by simp
qed

lemma product_multiple_of_8:
  fixes w h :: c_int
  assumes "8 dvd sint w * sint h"
  shows "8 dvd sint (w * h)"
  using dvd8_wrap [OF assms] by (simp add: sint_word_ariths)

subsection \<open>The streaming loop sends the complemented bytes\<close>

lemma stream_loop_from:
  "0 \<le> sint i \<Longrightarrow>
   stream_loop fb i n epd =
     epd\<lparr>trace := trace epd @ map (\<lambda>j. WriteData (NOT (fb j))) [nat (sint i)..<nat (sint n)]\<rparr>"
proof (induction fb i n epd rule: stream_loop.induct)
  case (1 fb i n epd)
  show ?case
  proof (cases "i <s n")
    case True
    then have lt: "sint i < sint n" by (simp add: word_sless_alt)
    have step: "sint (i + 1) = sint i + 1" using True by (rule sint_succ)
    have nat_step: "nat (sint i + 1) = Suc (nat (sint i))" using "1.prems" by simp
    have range: "[nat (sint i)..<nat (sint n)] = nat (sint i) # [Suc (nat (sint i))..<nat (sint n)]"
      using lt "1.prems" by (intro upt_conv_Cons) simp
    have "stream_loop fb i n epd =
            stream_loop fb (i + 1) n
              (writedata (ucast (NOT (ucast (fb (nat (sint i))) :: c_int))) epd)"
      using True by (subst stream_loop.simps) simp
    also have "\<dots> = (writedata (NOT (fb (nat (sint i)))) epd)
        \<lparr>trace := trace (writedata (NOT (fb (nat (sint i)))) epd) @
           map (\<lambda>j. WriteData (NOT (fb j))) [Suc (nat (sint i))..<nat (sint n)]\<rparr>"
      using "1.IH" [OF True] "1.prems" step nat_step by (simp add: not_promoted)
    also have "\<dots> = epd\<lparr>trace := trace epd @
           map (\<lambda>j. WriteData (NOT (fb j))) [nat (sint i)..<nat (sint n)]\<rparr>"
      by (simp add: writedata_def range)
    finally show ?thesis .
  next
    case False
    then have "sint n \<le> sint i" by (simp add: word_sless_alt)
    then have "[nat (sint i)..<nat (sint n)] = []" by simp
    moreover have "stream_loop fb i n epd = epd"
      using False by (subst stream_loop.simps) simp
    ultimately show ?thesis by simp
  qed
qed

lemma stream_loop_trace:
  "stream_loop fb 0 n epd =
     epd\<lparr>trace := trace epd @ map WriteData (inverted_image fb (nat (sint n)))\<rparr>"
  using stream_loop_from [of 0 fb n epd] by (simp add: inverted_image_def comp_def)

subsection \<open>The busy wait\<close>

lemma wait_busy_ready:
  "busy (k + n) \<noteq> 0 \<Longrightarrow> (\<forall>j<n. busy (k + j) = 0) \<Longrightarrow>
   wait_busy busy k epd = Some (epd\<lparr>trace := trace epd @ replicate n (Delay 10)\<rparr>)"
proof (induction n arbitrary: k epd)
  case 0
  then show ?case by (subst wait_busy.simps) simp
next
  case (Suc n)
  from Suc.prems(2) have now: "busy k = 0" by (metis add.right_neutral zero_less_Suc)
  have later: "busy (Suc k + n) \<noteq> 0" using Suc.prems(1) by simp
  have before: "\<forall>j<n. busy (Suc k + j) = 0"
  proof (intro allI impI)
    fix j assume "j < n"
    then have "busy (k + Suc j) = 0" using Suc.prems(2) by (metis Suc_less_eq)
    then show "busy (Suc k + j) = 0" by simp
  qed
  have "wait_busy busy k epd = wait_busy busy (Suc k) (delay 10 epd)"
    using now by (subst wait_busy.simps) simp
  also have "\<dots> = Some ((delay 10 epd)\<lparr>trace := trace (delay 10 epd) @ replicate n (Delay 10)\<rparr>)"
    by (rule Suc.IH [OF later before])
  also have "\<dots> = Some (epd\<lparr>trace := trace epd @ replicate (Suc n) (Delay 10)\<rparr>)"
    by (simp add: delay_def)
  finally show ?case .
qed

lemma wait_busy_Some:
  assumes ret: "wait_busy busy k epd = Some epd'"
  shows "\<exists>j\<ge>k. busy j \<noteq> 0"
proof (rule wait_busy.raw_induct [where P = "\<lambda>busy k epd epd'. \<exists>j\<ge>k. busy j \<noteq> 0", OF _ ret])
  fix wb :: "(nat \<Rightarrow> int) \<Rightarrow> nat \<Rightarrow> EPaper \<Rightarrow> EPaper option"
    and busy :: "nat \<Rightarrow> int" and k :: nat and epd epd' :: EPaper
  assume IH: "\<And>busy k epd epd'. wb busy k epd = Some epd' \<Longrightarrow> \<exists>j\<ge>k. busy j \<noteq> 0"
    and body: "(if busy k = 0 then wb busy (Suc k) (delay 10 epd) else Some epd) = Some epd'"
  show "\<exists>j\<ge>k. busy j \<noteq> 0"
  proof (cases "busy k = 0")
    case True
    with body have "wb busy (Suc k) (delay 10 epd) = Some epd'" by simp
    then obtain j where "Suc k \<le> j" and "busy j \<noteq> 0" using IH by blast
    then show ?thesis by (intro exI [of _ j]) simp
  next
    case False
    then show ?thesis by blast
  qed
qed

lemma wait_busy_never: "(\<forall>j. busy j = 0) \<Longrightarrow> wait_busy busy k epd = None"
  using wait_busy_Some [of busy k epd] by (cases "wait_busy busy k epd") auto

lemma first_ready:
  fixes busy :: "nat \<Rightarrow> int"
  assumes "busy k \<noteq> 0"
  shows "\<exists>m\<le>k. busy m \<noteq> 0 \<and> (\<forall>j<m. busy j = 0)"
proof -
  define m where "m = (LEAST j. busy j \<noteq> 0)"
  have "busy m \<noteq> 0" unfolding m_def using assms by (rule LeastI)
  moreover have "m \<le> k" unfolding m_def using assms by (rule Least_le)
  moreover have "\<forall>j<m. busy j = 0" unfolding m_def using not_less_Least by blast
  ultimately show ?thesis by blast
qed

subsection \<open>The routine as a whole\<close>

lemma updatePartial_null: "frameBuffer epd = None \<Longrightarrow> updatePartial busy epd = Some epd"
  by (simp add: updatePartial_def)

lemma updatePartial_unfold:
  assumes "frameBuffer epd = Some fb"
  shows "updatePartial busy epd =
           map_option endWrite (wait_busy busy 0
             (epd\<lparr>trace := trace epd @ [StartWrite] @ config_sequence @ [WriteCommand 0x13] @
                 map WriteData (inverted_image fb (nat (sint (bufSize epd)))) @
                 [WriteCommand 0x12, Delay 10]\<rparr>))"
  using assms
  by (simp add: updatePartial_def Let_def stream_loop_trace startWrite_def writecommand_def
      writedata_def delay_def config_sequence_def)

lemma updatePartial_ready:
  assumes "frameBuffer epd = Some fb" and "busy m \<noteq> 0" and "\<forall>j<m. busy j = 0"
  shows "updatePartial busy epd =
           Some (epd\<lparr>trace := trace epd @ refresh_cycle fb (nat (sint (bufSize epd))) m\<rparr>)"
proof -
  have "busy (0 + m) \<noteq> 0" and "\<forall>j<m. busy (0 + j) = 0" using assms(2,3) by simp_all
  note wait = wait_busy_ready [OF this]
  show ?thesis
    by (simp add: updatePartial_unfold [OF assms(1)] wait endWrite_def refresh_cycle_def)
qed

lemma updatePartial_returns:
  assumes "frameBuffer epd = Some fb" and "busy k \<noteq> 0"
  shows "\<exists>m\<le>k. busy m \<noteq> 0 \<and> (\<forall>j<m. busy j = 0) \<and>
           updatePartial busy epd =
             Some (epd\<lparr>trace := trace epd @ refresh_cycle fb (nat (sint (bufSize epd))) m\<rparr>)"
proof -
  from first_ready [of busy k, OF assms(2)] obtain m
    where "m \<le> k" and "busy m \<noteq> 0" and "\<forall>j<m. busy j = 0" by blast
  with updatePartial_ready [OF assms(1), of busy m] show ?thesis by blast
qed

lemma updatePartial_hangs:
  assumes "frameBuffer epd = Some fb" and "\<forall>k. busy k = 0"
  shows "updatePartial busy epd = None"
  by (simp add: updatePartial_unfold [OF assms(1)] wait_busy_never [OF assms(2)])

lemma updatePartial_Some_ready:
  assumes "frameBuffer epd = Some fb" and "updatePartial busy epd = Some epd'"
  shows "\<exists>k. busy k \<noteq> 0"
proof (rule ccontr)
  assume "\<not> (\<exists>k. busy k \<noteq> 0)"
  then have "\<forall>k. busy k = 0" by simp
  from updatePartial_hangs [OF assms(1) this] assms(2) show False by simp
qed

subsection \<open>Reading a refresh cycle\<close>

lemma new_events_appended [simp]: "new_events epd (epd\<lparr>trace := trace epd @ es\<rparr>) = es"
  by (simp add: new_events_def)

lemma emitted_data [simp]: "emitted (map WriteData ds) = map WriteData ds"
  by (induction ds) (simp_all add: emitted_def)

lemma emitted_delays [simp]: "emitted (replicate n (Delay ms)) = []"
  by (induction n) (simp_all add: emitted_def)

lemma emitted_append [simp]: "emitted (xs @ ys) = emitted xs @ emitted ys"
  by (simp add: emitted_def)

lemma emitted_refresh_cycle:
  "emitted (refresh_cycle fb n m) =
     config_sequence @ [WriteCommand 0x13] @ map WriteData (inverted_image fb n) @
     [WriteCommand 0x12]"
  unfolding refresh_cycle_def emitted_append emitted_data emitted_delays
  by (simp add: emitted_def config_sequence_def)

lemma data_run_block [simp]: "data_run (map WriteData ds @ WriteCommand c # es) = ds"
  by (induction ds) simp_all

lemma data_after_refresh_cycle: "data_after 0x13 (refresh_cycle fb n m) = inverted_image fb n"
  by (simp add: refresh_cycle_def config_sequence_def)

lemma length_inverted_image [simp]: "length (inverted_image fb n) = n"
  by (simp add: inverted_image_def)

lemma nth_inverted_image [simp]: "i < n \<Longrightarrow> inverted_image fb n ! i = NOT (fb i)"
  by (simp add: inverted_image_def)

lemma emitted_by_ready:
  assumes "frameBuffer epd = Some fb" and "busy k \<noteq> 0"
  shows "emitted_by busy epd =
           Some (config_sequence @ [WriteCommand 0x13] @
                 map WriteData (inverted_image fb (nat (sint (bufSize epd)))) @
                 [WriteCommand 0x12])"
proof -
  from updatePartial_returns [of epd fb busy k] assms obtain m where
    "updatePartial busy epd =
       Some (epd\<lparr>trace := trace epd @ refresh_cycle fb (nat (sint (bufSize epd))) m\<rparr>)"
    by blast
  then show ?thesis by (simp add: emitted_by_def emitted_refresh_cycle)
qed

subsection \<open>The routine observed while it runs\<close>

lemma wait_busy_upto_trace:
  "\<exists>j\<le>fuel.
     wait_busy_upto fuel busy k epd = Returned (epd\<lparr>trace := trace epd @ replicate j (Delay 10)\<rparr>) \<or>
     wait_busy_upto fuel busy k epd = Polling (epd\<lparr>trace := trace epd @ replicate j (Delay 10)\<rparr>)"
proof (induction fuel arbitrary: k epd)
  case 0
  then show ?case by simp
next
  case (Suc fuel)
  show ?case
  proof (cases "busy k = 0")
    case True
    from Suc.IH [of "Suc k" "delay 10 epd"] obtain j where j: "j \<le> fuel"
      and alt: "wait_busy_upto fuel busy (Suc k) (delay 10 epd) =
          Returned ((delay 10 epd)\<lparr>trace := trace (delay 10 epd) @ replicate j (Delay 10)\<rparr>) \<or>
        wait_busy_upto fuel busy (Suc k) (delay 10 epd) =
          Polling ((delay 10 epd)\<lparr>trace := trace (delay 10 epd) @ replicate j (Delay 10)\<rparr>)"
      by blast
    have same: "(delay 10 epd)\<lparr>trace := trace (delay 10 epd) @ replicate j (Delay 10)\<rparr> =
        epd\<lparr>trace := trace epd @ replicate (Suc j) (Delay 10)\<rparr>"
      by (simp add: delay_def)
    from alt True j show ?thesis
      unfolding same by (intro exI [of _ "Suc j"]) simp
  next
    case False
    then show ?thesis by (intro exI [of _ 0]) simp
  qed
qed

lemma wait_busy_upto_Returned:
  "wait_busy_upto fuel busy k epd = Returned epd' \<Longrightarrow> wait_busy busy k epd = Some epd'"
proof (induction fuel arbitrary: k epd)
  case 0
  then show ?case by simp
next
  case (Suc fuel)
  show ?case
  proof (cases "busy k = 0")
    case True
    with Suc.prems have "wait_busy_upto fuel busy (Suc k) (delay 10 epd) = Returned epd'"
      by simp
    then have "wait_busy busy (Suc k) (delay 10 epd) = Some epd'" by (rule Suc.IH)
    with True show ?thesis by (subst wait_busy.simps) simp
  next
    case False
    with Suc.prems show ?thesis by (subst wait_busy.simps) simp
  qed
qed

lemma wait_busy_upto_ready:
  "busy (k + n) \<noteq> 0 \<Longrightarrow> (\<forall>j<n. busy (k + j) = 0) \<Longrightarrow>
   wait_busy_upto (Suc n) busy k epd =
     Returned (epd\<lparr>trace := trace epd @ replicate n (Delay 10)\<rparr>)"
proof (induction n arbitrary: k epd)
  case 0
  then show ?case by simp
next
  case (Suc n)
  from Suc.prems(2) have now: "busy k = 0" by (metis add.right_neutral zero_less_Suc)
  have later: "busy (Suc k + n) \<noteq> 0" using Suc.prems(1) by simp
  have before: "\<forall>j<n. busy (Suc k + j) = 0"
  proof (intro allI impI)
    fix j assume "j < n"
    then have "busy (k + Suc j) = 0" using Suc.prems(2) by (metis Suc_less_eq)
    then show "busy (Suc k + j) = 0" by simp
  qed
  have "wait_busy_upto (Suc (Suc n)) busy k epd = wait_busy_upto (Suc n) busy (Suc k) (delay 10 epd)"
    using now by simp
  also have "\<dots> = Returned ((delay 10 epd)\<lparr>trace := trace (delay 10 epd) @ replicate n (Delay 10)\<rparr>)"
    by (rule Suc.IH [OF later before])
  also have "\<dots> = Returned (epd\<lparr>trace := trace epd @ replicate (Suc n) (Delay 10)\<rparr>)"
    by (simp add: delay_def)
  finally show ?case .
qed

lemma updatePartial_upto_unfold:
  assumes "frameBuffer epd = Some fb"
  shows "updatePartial_upto fuel busy epd =
           (case wait_busy_upto fuel busy 0
              (epd\<lparr>trace := trace epd @ [StartWrite] @ config_sequence @ [WriteCommand 0x13] @
                  map WriteData (inverted_image fb (nat (sint (bufSize epd)))) @
                  [WriteCommand 0x12, Delay 10]\<rparr>) of
              Returned epd' \<Rightarrow> Returned (endWrite epd')
            | Polling epd' \<Rightarrow> Polling epd')"
  using assms
  by (simp add: updatePartial_upto_def Let_def stream_loop_trace startWrite_def writecommand_def
      writedata_def delay_def config_sequence_def)

text \<open>The cut-off run and the routine agree: the routine returns a state exactly when some
  cut-off run has returned with it.\<close>

lemma updatePartial_upto_agrees:
  "updatePartial busy epd = Some epd' \<longleftrightarrow> (\<exists>fuel. updatePartial_upto fuel busy epd = Returned epd')"
proof (cases "frameBuffer epd")
  case None
  then show ?thesis by (auto simp add: updatePartial_def updatePartial_upto_def)
next
  case (Some fb)
  define start where "start = epd\<lparr>trace := trace epd @ [StartWrite] @ config_sequence @
      [WriteCommand 0x13] @ map WriteData (inverted_image fb (nat (sint (bufSize epd)))) @
      [WriteCommand 0x12, Delay 10]\<rparr>"
  have run: "updatePartial busy epd = map_option endWrite (wait_busy busy 0 start)"
    unfolding start_def by (rule updatePartial_unfold [OF Some])
  have upto: "updatePartial_upto fuel busy epd =
      (case wait_busy_upto fuel busy 0 start of
         Returned e \<Rightarrow> Returned (endWrite e) | Polling e \<Rightarrow> Polling e)" for fuel
    unfolding start_def by (rule updatePartial_upto_unfold [OF Some])
  show ?thesis
  proof
    assume ret: "updatePartial busy epd = Some epd'"
    with run have "map_option endWrite (wait_busy busy 0 start) = Some epd'" by simp
    then obtain e where wait: "wait_busy busy 0 start = Some e" and e: "epd' = endWrite e"
      by (cases "wait_busy busy 0 start") auto
    from wait_busy_Some [OF wait] obtain k where "busy k \<noteq> 0" by blast
    from first_ready [of busy k, OF this] obtain m
      where m: "busy m \<noteq> 0" "\<forall>j<m. busy j = 0" by blast
    then have m0: "busy (0 + m) \<noteq> 0" "\<forall>j<m. busy (0 + j) = 0" by simp_all
    from wait_busy_ready [OF m0] wait
    have "e = start\<lparr>trace := trace start @ replicate m (Delay 10)\<rparr>" by simp
    with wait_busy_upto_ready [OF m0, of start]
    have "wait_busy_upto (Suc m) busy 0 start = Returned e" by simp
    then have "updatePartial_upto (Suc m) busy epd = Returned epd'"
      by (simp add: upto e)
    then show "\<exists>fuel. updatePartial_upto fuel busy epd = Returned epd'" ..
  next
    assume "\<exists>fuel. updatePartial_upto fuel busy epd = Returned epd'"
    then obtain fuel where "updatePartial_upto fuel busy epd = Returned epd'" ..
    then obtain e where "wait_busy_upto fuel busy 0 start = Returned e" and "epd' = endWrite e"
      by (auto simp add: upto split: progress.splits)
    with wait_busy_upto_Returned [of fuel busy 0 start e] run
    show "updatePartial busy epd = Some epd'" by simp
  qed
qed

lemma emitted_upto:
  assumes "frameBuffer epd = Some fb"
  shows "emitted (new_events epd (state_of (updatePartial_upto fuel busy epd))) =
           config_sequence @ [WriteCommand 0x13] @
           map WriteData (inverted_image fb (nat (sint (bufSize epd)))) @ [WriteCommand 0x12]"
proof -
  define sent where "sent = [StartWrite] @ config_sequence @ [WriteCommand 0x13] @
      map WriteData (inverted_image fb (nat (sint (bufSize epd)))) @ [WriteCommand 0x12, Delay 10]"
  define start where "start = epd\<lparr>trace := trace epd @ sent\<rparr>"
  have upto: "updatePartial_upto fuel busy epd =
      (case wait_busy_upto fuel busy 0 start of
         Returned e \<Rightarrow> Returned (endWrite e) | Polling e \<Rightarrow> Polling e)"
    unfolding start_def sent_def by (rule updatePartial_upto_unfold [OF assms])
  have bus: "emitted sent = config_sequence @ [WriteCommand 0x13] @
      map WriteData (inverted_image fb (nat (sint (bufSize epd)))) @ [WriteCommand 0x12]"
    unfolding sent_def emitted_append emitted_data by (simp add: emitted_def config_sequence_def)
  from wait_busy_upto_trace [of fuel busy 0 start] obtain j where
    "wait_busy_upto fuel busy 0 start = Returned (start\<lparr>trace := trace start @ replicate j (Delay 10)\<rparr>) \<or>
     wait_busy_upto fuel busy 0 start = Polling (start\<lparr>trace := trace start @ replicate j (Delay 10)\<rparr>)"
    by blast
  then show ?thesis
  proof
    assume "wait_busy_upto fuel busy 0 start =
        Returned (start\<lparr>trace := trace start @ replicate j (Delay 10)\<rparr>)"
    then have "state_of (updatePartial_upto fuel busy epd) =
        epd\<lparr>trace := trace epd @ (sent @ replicate j (Delay 10) @ [EndWrite])\<rparr>"
      by (simp add: upto start_def endWrite_def)
    then show ?thesis
      by (simp only: new_events_appended emitted_append emitted_delays bus)
        (simp add: emitted_def)
  next
    assume "wait_busy_upto fuel busy 0 start =
        Polling (start\<lparr>trace := trace start @ replicate j (Delay 10)\<rparr>)"
    then have "state_of (updatePartial_upto fuel busy epd) =
        epd\<lparr>trace := trace epd @ (sent @ replicate j (Delay 10))\<rparr>"
      by (simp add: upto start_def)
    then show ?thesis
      by (simp only: new_events_appended emitted_append emitted_delays bus) simp
  qed
qed

lemma emitted_upto_null:
  assumes "frameBuffer epd = None"
  shows "emitted (new_events epd (state_of (updatePartial_upto fuel busy epd))) = []"
  using assms by (simp add: updatePartial_upto_def new_events_def emitted_def)

lemma inverted_image_contents:
  "inverted_image fb n = map (\<lambda>b. NOT b) (map fb [0..<n])"
  by (simp add: inverted_image_def)

subsection \<open>The sample inputs\<close>

lemma bufSize_small_panel: "bufSize small_panel = 2"
  by (simp add: bufSize_def c_div_def small_panel_def signed_divide_int_def)

lemma bufSize_800x480: "width epd = 800 \<Longrightarrow> height epd = 480 \<Longrightarrow> bufSize epd = 48000"
  by (simp add: bufSize_def c_div_def signed_divide_int_def)

section \<open>The specified properties\<close>

text \<open>
  C1. With a framebuffer (non-null, any contents) the controller receives, once the panel
  reports ready so that the call returns, exactly: command 0x00 with parameter 0x1F, command
  0x50 with parameters 0x10 and 0x07, command 0xE0 with parameter 0x02, command 0xE5 with
  parameter 0x5A, command 0x13, then \<open>bufSize\<close> data bytes (none when \<open>bufSize\<close> is not
  positive), then command 0x12, and nothing else.
\<close>

theorem updatePartial_command_sequence:
  assumes "frameBuffer epd = Some fb" and "busy k \<noteq> 0"
  shows "\<exists>ds. length ds = nat (sint (bufSize epd)) \<and>
           emitted_by busy epd =
             Some ([WriteCommand 0x00, WriteData 0x1F,
                    WriteCommand 0x50, WriteData 0x10, WriteData 0x07,
                    WriteCommand 0xE0, WriteData 0x02,
                    WriteCommand 0xE5, WriteData 0x5A,
                    WriteCommand 0x13] @ map WriteData ds @ [WriteCommand 0x12])"
proof (intro exI conjI)
  show "length (inverted_image fb (nat (sint (bufSize epd)))) = nat (sint (bufSize epd))"
    by simp
  show "emitted_by busy epd =
          Some ([WriteCommand 0x00, WriteData 0x1F,
                 WriteCommand 0x50, WriteData 0x10, WriteData 0x07,
                 WriteCommand 0xE0, WriteData 0x02,
                 WriteCommand 0xE5, WriteData 0x5A,
                 WriteCommand 0x13] @
                map WriteData (inverted_image fb (nat (sint (bufSize epd)))) @
                [WriteCommand 0x12])"
    using emitted_by_ready [of epd fb busy k] assms by (simp add: config_sequence_def)
qed

theorem updatePartial_command_sequence_witness:
  "frameBuffer small_panel = Some sample_fb \<and> busy_twice 2 \<noteq> 0 \<and>
   (\<exists>ds. length ds = 2 \<and>
      emitted_by busy_twice small_panel =
        Some ([WriteCommand 0x00, WriteData 0x1F,
               WriteCommand 0x50, WriteData 0x10, WriteData 0x07,
               WriteCommand 0xE0, WriteData 0x02,
               WriteCommand 0xE5, WriteData 0x5A,
               WriteCommand 0x13] @ map WriteData ds @ [WriteCommand 0x12]))"
proof -
  have fb: "frameBuffer small_panel = Some sample_fb" by (simp add: small_panel_def)
  have ready: "busy_twice 2 \<noteq> 0" by (simp add: busy_twice_def)
  from updatePartial_command_sequence [of small_panel sample_fb busy_twice 2, OF fb ready]
  show ?thesis using fb ready by (simp add: bufSize_small_panel)
qed

text \<open>
  C2. With a framebuffer (non-null, any contents), the data bytes that follow command 0x13
  are \<open>bufSize\<close> in number, and the \<open>i\<close>-th of them is the bitwise complement of
  framebuffer byte \<open>i\<close>, for every \<open>i\<close> below \<open>bufSize\<close>.
\<close>

theorem updatePartial_inverts_bytes:
  assumes "frameBuffer epd = Some fb" and "busy k \<noteq> 0"
  shows "\<exists>ds. map_option (data_after 0x13) (emitted_by busy epd) = Some ds \<and>
           length ds = nat (sint (bufSize epd)) \<and>
           (\<forall>i<nat (sint (bufSize epd)). ds ! i = NOT (fb i))"
proof (intro exI conjI)
  show "map_option (data_after 0x13) (emitted_by busy epd) =
          Some (inverted_image fb (nat (sint (bufSize epd))))"
    using emitted_by_ready [of epd fb busy k] assms by (simp add: config_sequence_def)
  show "length (inverted_image fb (nat (sint (bufSize epd)))) = nat (sint (bufSize epd))"
    by simp
  show "\<forall>i<nat (sint (bufSize epd)). inverted_image fb (nat (sint (bufSize epd))) ! i = NOT (fb i)"
    by simp
qed

theorem updatePartial_inverts_bytes_witness:
  "frameBuffer small_panel = Some sample_fb \<and> busy_twice 2 \<noteq> 0 \<and>
   map_option (data_after 0x13) (emitted_by busy_twice small_panel) = Some [0xF0, 0x5A]"
proof -
  have fb: "frameBuffer small_panel = Some sample_fb" by (simp add: small_panel_def)
  have ready: "busy_twice 2 \<noteq> 0" by (simp add: busy_twice_def)
  from updatePartial_inverts_bytes [of small_panel sample_fb busy_twice 2, OF fb ready]
  obtain ds where run: "map_option (data_after 0x13) (emitted_by busy_twice small_panel) = Some ds"
    and len: "length ds = 2" and nth: "\<forall>i<2. ds ! i = NOT (sample_fb i)"
    by (auto simp add: bufSize_small_panel)
  from nth have "ds ! 0 = 0xF0" and "ds ! 1 = 0x5A" by (simp_all add: sample_fb_def)
  with len have "ds = [0xF0, 0x5A]"
    by (cases ds; cases "tl ds") auto
  with run fb ready show ?thesis by simp
qed

text \<open>
  C3. When the display's framebuffer pointer is null, the call returns at once, whatever
  the busy line would read, and the display is left exactly as it was: nothing is added to
  the trace, so no command, no data byte, no \<open>startWrite\<close> and no pause has happened.
\<close>

theorem updatePartial_null_framebuffer:
  "frameBuffer epd = None \<Longrightarrow> updatePartial busy epd = Some epd"
  by (simp add: updatePartial_def)

theorem updatePartial_null_framebuffer_witness:
  "frameBuffer null_panel = None \<and> updatePartial always_busy null_panel = Some null_panel"
  using updatePartial_null_framebuffer [of null_panel always_busy]
  by (simp add: null_panel_def)


text \<open>
  C4. Once the polling loop is reached (the framebuffer is not null), the call returns if
  and only if some reading of the busy line is nonzero. If every reading is zero the call
  never returns. There is no timeout: when the first nonzero reading is reading \<open>m\<close>, the
  call returns after the pause that follows the refresh command and \<open>m\<close> polling pauses,
  however large \<open>m\<close> is.
\<close>

theorem updatePartial_returns_iff_ready:
  assumes "frameBuffer epd = Some fb"
  shows "((\<exists>epd'. updatePartial busy epd = Some epd') \<longleftrightarrow> (\<exists>k. busy k \<noteq> 0)) \<and>
         ((\<forall>k. busy k = 0) \<longrightarrow> updatePartial busy epd = None) \<and>
         (\<forall>m. busy m \<noteq> 0 \<and> (\<forall>j<m. busy j = 0) \<longrightarrow>
            (\<exists>epd'. updatePartial busy epd = Some epd' \<and>
               length (filter is_delay (new_events epd epd')) = Suc m))"
proof (intro conjI)
  show "(\<exists>epd'. updatePartial busy epd = Some epd') \<longleftrightarrow> (\<exists>k. busy k \<noteq> 0)"
  proof
    assume "\<exists>epd'. updatePartial busy epd = Some epd'"
    then show "\<exists>k. busy k \<noteq> 0" using updatePartial_Some_ready [OF assms] by blast
  next
    assume "\<exists>k. busy k \<noteq> 0"
    then obtain k where "busy k \<noteq> 0" ..
    with updatePartial_returns [of epd fb busy k] assms
    show "\<exists>epd'. updatePartial busy epd = Some epd'" by blast
  qed
  show "(\<forall>k. busy k = 0) \<longrightarrow> updatePartial busy epd = None"
    using updatePartial_hangs [OF assms] by blast
  show "\<forall>m. busy m \<noteq> 0 \<and> (\<forall>j<m. busy j = 0) \<longrightarrow>
          (\<exists>epd'. updatePartial busy epd = Some epd' \<and>
             length (filter is_delay (new_events epd epd')) = Suc m)"
  proof (intro allI impI)
    fix m assume "busy m \<noteq> 0 \<and> (\<forall>j<m. busy j = 0)"
    then have run: "updatePartial busy epd =
        Some (epd\<lparr>trace := trace epd @ refresh_cycle fb (nat (sint (bufSize epd))) m\<rparr>)"
      using updatePartial_ready [of epd fb busy m] assms by blast
    have "length (filter is_delay (refresh_cycle fb n m)) = Suc m" for n
      by (simp add: refresh_cycle_def config_sequence_def filter_map comp_def)
    with run show "\<exists>epd'. updatePartial busy epd = Some epd' \<and>
        length (filter is_delay (new_events epd epd')) = Suc m"
      by simp
  qed
qed

theorem updatePartial_returns_iff_ready_witness:
  "frameBuffer small_panel = Some sample_fb \<and>
   busy_twice 0 = 0 \<and> busy_twice 1 = 0 \<and> busy_twice 2 \<noteq> 0 \<and>
   (\<exists>epd'. updatePartial busy_twice small_panel = Some epd' \<and>
      length (filter is_delay (new_events small_panel epd')) = 3) \<and>
   updatePartial always_busy small_panel = None"
proof -
  have fb: "frameBuffer small_panel = Some sample_fb" by (simp add: small_panel_def)
  have readings: "busy_twice 0 = 0" "busy_twice 1 = 0" "busy_twice 2 \<noteq> 0"
    by (simp_all add: busy_twice_def)
  have first: "busy_twice 2 \<noteq> 0 \<and> (\<forall>j<2. busy_twice j = 0)" by (simp add: busy_twice_def)
  have never: "\<forall>k. always_busy k = 0" by (simp add: always_busy_def)
  from updatePartial_returns_iff_ready [of small_panel sample_fb busy_twice, OF fb] first
  have "\<exists>epd'. updatePartial busy_twice small_panel = Some epd' \<and>
      length (filter is_delay (new_events small_panel epd')) = Suc 2"
    by blast
  moreover from updatePartial_returns_iff_ready [of small_panel sample_fb always_busy, OF fb] never
  have "updatePartial always_busy small_panel = None" by blast
  ultimately show ?thesis using fb readings by simp
qed

text \<open>
  C5. Whenever the reported width times the reported height is a multiple of 8, the transfer
  size satisfies \<open>bufSize * 8 == width * height\<close>: as the C expression over \<open>int\<close> for
  all reported values, and over the integers whenever the product fits an \<open>int\<close>.
\<close>

theorem bufSize_times_8:
  assumes "8 dvd sint (width epd) * sint (height epd)"
  shows "bufSize epd * 8 = width epd * height epd \<and>
         (- (2 ^ 31) \<le> sint (width epd) * sint (height epd) \<and>
          sint (width epd) * sint (height epd) < 2 ^ 31 \<longrightarrow>
            sint (bufSize epd) * 8 = sint (width epd) * sint (height epd))"
proof (intro conjI impI)
  have dvd: "8 dvd sint (width epd * height epd)"
    using assms by (rule product_multiple_of_8)
  show "bufSize epd * 8 = width epd * height epd"
    unfolding bufSize_def using dvd by (rule c_div_exact(1))
  assume fits: "- (2 ^ 31) \<le> sint (width epd) * sint (height epd) \<and>
                sint (width epd) * sint (height epd) < 2 ^ 31"
  have "sint (width epd * height epd) = signed_take_bit 31 (sint (width epd) * sint (height epd))"
    by (simp add: sint_word_ariths)
  also have "\<dots> = sint (width epd) * sint (height epd)"
    using fits by (intro signed_take_bit_int_eq_self) simp_all
  finally have "sint (width epd * height epd) = sint (width epd) * sint (height epd)" .
  moreover have "sint (bufSize epd) * 8 = sint (width epd * height epd)"
    unfolding bufSize_def using dvd by (rule c_div_exact(2))
  ultimately show "sint (bufSize epd) * 8 = sint (width epd) * sint (height epd)" by simp
qed

theorem bufSize_times_8_witness:
  "(8::int) dvd 800 * 480 \<and> bufSize panel_800x480 * 8 = 800 * 480 \<and>
   sint (bufSize panel_800x480) * 8 = 800 * 480"
proof -
  have dims: "width panel_800x480 = 800" "height panel_800x480 = 480"
    by (simp_all add: panel_800x480_def)
  have hyp: "8 dvd sint (width panel_800x480) * sint (height panel_800x480)"
    by (simp add: dims)
  from bufSize_times_8 [of panel_800x480, OF hyp] show ?thesis by (simp add: dims)
qed

text \<open>
  C6. With a non-null framebuffer, a call that returns has added to the trace exactly one
  \<open>startWrite\<close>, as the first event, before every command, data byte and pause, and
  exactly one \<open>endWrite\<close>, as the last event, after every command, data byte and pause of
  the busy wait. The call has no other way out once the transaction is open.
\<close>

theorem updatePartial_transaction:
  assumes "frameBuffer epd = Some fb" and "busy k \<noteq> 0"
  shows "\<exists>epd' mid. updatePartial busy epd = Some epd' \<and>
           new_events epd epd' = StartWrite # mid @ [EndWrite] \<and>
           StartWrite \<notin> set mid \<and> EndWrite \<notin> set mid"
proof -
  from updatePartial_returns [of epd fb busy k] assms obtain m where run:
    "updatePartial busy epd =
       Some (epd\<lparr>trace := trace epd @ refresh_cycle fb (nat (sint (bufSize epd))) m\<rparr>)"
    by blast
  define mid where "mid = config_sequence @ [WriteCommand 0x13] @
     map WriteData (inverted_image fb (nat (sint (bufSize epd)))) @
     [WriteCommand 0x12, Delay 10] @ replicate m (Delay 10)"
  have shape: "refresh_cycle fb (nat (sint (bufSize epd))) m = StartWrite # mid @ [EndWrite]"
    by (simp add: refresh_cycle_def mid_def)
  have "StartWrite \<notin> set mid" and "EndWrite \<notin> set mid"
    by (auto simp add: mid_def config_sequence_def)
  with run shape show ?thesis by (intro exI [of _ "epd\<lparr>trace := trace epd @ refresh_cycle fb (nat (sint (bufSize epd))) m\<rparr>"] exI [of _ mid]) simp
qed

theorem updatePartial_transaction_witness:
  "frameBuffer small_panel = Some sample_fb \<and> busy_twice 2 \<noteq> 0 \<and>
   (\<exists>epd' mid. updatePartial busy_twice small_panel = Some epd' \<and>
      new_events small_panel epd' = StartWrite # mid @ [EndWrite] \<and>
      StartWrite \<notin> set mid \<and> EndWrite \<notin> set mid)"
proof -
  have fb: "frameBuffer small_panel = Some sample_fb" by (simp add: small_panel_def)
  have ready: "busy_twice 2 \<noteq> 0" by (simp add: busy_twice_def)
  from updatePartial_transaction [of small_panel sample_fb busy_twice 2, OF fb ready]
  show ?thesis using fb ready by simp
qed

text \<open>
  C7, as the code has it. For a display that reports 800 by 480, \<open>bufSize\<close> is 48000 and
  the controller receives four header commands carrying five parameter bytes between them
  (0x50 takes two), then the data-block command 0x13, then 48000 complemented data bytes,
  then the trigger command 0x12: 48011 bytes in all. The header is therefore not five pairs
  of one command and one data byte, which would make 48012.
\<close>

theorem panel_800x480_stream:
  assumes "frameBuffer epd = Some fb" and "width epd = 800" and "height epd = 480"
    and "busy k \<noteq> 0"
  shows "bufSize epd = 48000 \<and>
         emitted_by busy epd =
           Some ([WriteCommand 0x00, WriteData 0x1F,
                  WriteCommand 0x50, WriteData 0x10, WriteData 0x07,
                  WriteCommand 0xE0, WriteData 0x02,
                  WriteCommand 0xE5, WriteData 0x5A] @
                 [WriteCommand 0x13] @ map WriteData (inverted_image fb 48000) @
                 [WriteCommand 0x12]) \<and>
         map_option length (emitted_by busy epd) = Some (4 + 5 + 1 + 48000 + 1)"
proof -
  have size: "bufSize epd = 48000" using assms(2,3) by (rule bufSize_800x480)
  then have count: "nat (sint (bufSize epd)) = 48000" by simp
  have stream: "emitted_by busy epd =
      Some (config_sequence @ [WriteCommand 0x13] @ map WriteData (inverted_image fb 48000) @
            [WriteCommand 0x12])"
    using emitted_by_ready [of epd fb busy k, OF assms(1) assms(4)] by (simp only: count)
  show ?thesis
    by (simp add: size stream config_sequence_def)
qed

theorem panel_800x480_stream_witness:
  "frameBuffer panel_800x480 = Some blank_fb \<and> width panel_800x480 = 800 \<and>
   height panel_800x480 = 480 \<and> ready_at_once 0 \<noteq> 0 \<and>
   bufSize panel_800x480 = 48000 \<and>
   map_option length (emitted_by ready_at_once panel_800x480) = Some 48011"
proof -
  have hyps: "frameBuffer panel_800x480 = Some blank_fb" "width panel_800x480 = 800"
    "height panel_800x480 = 480" "ready_at_once 0 \<noteq> 0"
    by (simp_all add: panel_800x480_def ready_at_once_def)
  from panel_800x480_stream [of panel_800x480 blank_fb ready_at_once 0, OF hyps]
  show ?thesis using hyps by simp
qed

text \<open>The sentence as the specification words it fails on the 800 by 480 panel with a blank framebuffer and a
  panel that is ready at the first reading: the stream is 48011 bytes long, and reading five
  command and data pairs off its front fails at the third pair, where the second parameter
  byte of command 0x50 stands.\<close>

theorem five_header_pairs_counterexample:
  "map_option length (emitted_by ready_at_once panel_800x480) = Some 48011 \<and>
   map_option (command_data_pairs 5) (emitted_by ready_at_once panel_800x480) = Some None"
proof -
  have fb: "frameBuffer panel_800x480 = Some blank_fb" by (simp add: panel_800x480_def)
  have ready: "ready_at_once 0 \<noteq> 0" by (simp add: ready_at_once_def)
  have "bufSize panel_800x480 = 48000"
    by (rule bufSize_800x480) (simp_all add: panel_800x480_def)
  then have count: "nat (sint (bufSize panel_800x480)) = 48000" by simp
  have stream: "emitted_by ready_at_once panel_800x480 =
      Some (config_sequence @ [WriteCommand 0x13] @
            map WriteData (inverted_image blank_fb 48000) @ [WriteCommand 0x12])"
    using emitted_by_ready [of panel_800x480 blank_fb ready_at_once 0, OF fb ready]
    by (simp only: count)
  have five: "5 = Suc (Suc (Suc (Suc (Suc 0))))" by simp
  have pairs: "command_data_pairs 5 (config_sequence @ rest) = None" for rest
    unfolding five by (simp add: config_sequence_def)
  have len: "length (config_sequence @ [WriteCommand 0x13] @
      map WriteData (inverted_image blank_fb 48000) @ [WriteCommand 0x12]) = 48011"
    by (simp add: config_sequence_def)
  show ?thesis
    unfolding stream option.map by (intro conjI) (simp_all only: len pairs)
qed

text \<open>
  C8. When a call returns, the framebuffer of the display is what it was before the call:
  the same pointer, and behind it the same bytes. The complement is taken on the bytes sent,
  never stored.
\<close>

theorem updatePartial_keeps_framebuffer:
  assumes "updatePartial busy epd = Some epd'"
  shows "frameBuffer epd' = frameBuffer epd"
proof (cases "frameBuffer epd")
  case None
  then have "updatePartial busy epd = Some epd" by (rule updatePartial_null)
  with assms show ?thesis by simp
next
  case (Some fb)
  from updatePartial_Some_ready [OF Some assms] obtain k where "busy k \<noteq> 0" ..
  with updatePartial_returns [of epd fb busy k] Some obtain m where
    "updatePartial busy epd =
       Some (epd\<lparr>trace := trace epd @ refresh_cycle fb (nat (sint (bufSize epd))) m\<rparr>)"
    by blast
  with assms show ?thesis by auto
qed

theorem updatePartial_keeps_framebuffer_witness:
  "\<exists>epd'. updatePartial busy_twice small_panel = Some epd' \<and>
     frameBuffer epd' = Some sample_fb"
proof -
  have fb: "frameBuffer small_panel = Some sample_fb" by (simp add: small_panel_def)
  have ready: "busy_twice 2 \<noteq> 0" by (simp add: busy_twice_def)
  from updatePartial_returns [of small_panel sample_fb busy_twice 2] fb ready
  obtain epd' where run: "updatePartial busy_twice small_panel = Some epd'" by blast
  from updatePartial_keeps_framebuffer [OF run] fb have "frameBuffer epd' = Some sample_fb"
    by simp
  with run show ?thesis by blast
qed

text \<open>
  C9. With a non-null framebuffer and reported dimensions whose product is 0, \<open>bufSize\<close>
  is 0 and the cycle still runs in full: the transaction is opened, the whole configuration
  sequence is sent, command 0x13 follows with no data byte, then command 0x12 and its pause,
  then the busy wait, one pause for each busy reading, and the transaction is closed. When
  the line never reads ready the call does not return. Only the null check ends a call early.
\<close>

theorem updatePartial_zero_area:
  assumes "frameBuffer epd = Some fb" and "width epd * height epd = 0"
  shows "bufSize epd = 0 \<and>
         (\<forall>m. busy m \<noteq> 0 \<and> (\<forall>j<m. busy j = 0) \<longrightarrow>
            updatePartial busy epd =
              Some (epd\<lparr>trace := trace epd @
                [StartWrite,
                 WriteCommand 0x00, WriteData 0x1F,
                 WriteCommand 0x50, WriteData 0x10, WriteData 0x07,
                 WriteCommand 0xE0, WriteData 0x02,
                 WriteCommand 0xE5, WriteData 0x5A,
                 WriteCommand 0x13,
                 WriteCommand 0x12, Delay 10] @ replicate m (Delay 10) @ [EndWrite]\<rparr>)) \<and>
         ((\<forall>k. busy k = 0) \<longrightarrow> updatePartial busy epd = None)"
proof (intro conjI allI impI)
  show size: "bufSize epd = 0" using assms(2) by (simp add: bufSize_def c_div_def)
  show "updatePartial busy epd = None" if "\<forall>k. busy k = 0"
    using updatePartial_hangs [OF assms(1) that] .
  fix m assume first: "busy m \<noteq> 0 \<and> (\<forall>j<m. busy j = 0)"
  then have "updatePartial busy epd =
      Some (epd\<lparr>trace := trace epd @ refresh_cycle fb (nat (sint (bufSize epd))) m\<rparr>)"
    using updatePartial_ready [of epd fb busy m] assms(1) by blast
  then show "updatePartial busy epd =
      Some (epd\<lparr>trace := trace epd @
        [StartWrite,
         WriteCommand 0x00, WriteData 0x1F,
         WriteCommand 0x50, WriteData 0x10, WriteData 0x07,
         WriteCommand 0xE0, WriteData 0x02,
         WriteCommand 0xE5, WriteData 0x5A,
         WriteCommand 0x13,
         WriteCommand 0x12, Delay 10] @ replicate m (Delay 10) @ [EndWrite]\<rparr>)"
    by (simp add: size refresh_cycle_def config_sequence_def inverted_image_def)
qed

theorem updatePartial_zero_area_witness:
  "frameBuffer flat_panel = Some sample_fb \<and> width flat_panel * height flat_panel = 0 \<and>
   busy_twice 0 = 0 \<and> busy_twice 1 = 0 \<and> busy_twice 2 \<noteq> 0 \<and>
   bufSize flat_panel = 0 \<and>
   updatePartial busy_twice flat_panel =
     Some (flat_panel\<lparr>trace :=
       [StartWrite,
        WriteCommand 0x00, WriteData 0x1F,
        WriteCommand 0x50, WriteData 0x10, WriteData 0x07,
        WriteCommand 0xE0, WriteData 0x02,
        WriteCommand 0xE5, WriteData 0x5A,
        WriteCommand 0x13,
        WriteCommand 0x12, Delay 10, Delay 10, Delay 10, EndWrite]\<rparr>) \<and>
   updatePartial always_busy flat_panel = None"
proof -
  have fb: "frameBuffer flat_panel = Some sample_fb" by (simp add: flat_panel_def)
  have area: "width flat_panel * height flat_panel = 0" by (simp add: flat_panel_def)
  have readings: "busy_twice 0 = 0" "busy_twice 1 = 0" "busy_twice 2 \<noteq> 0"
    by (simp_all add: busy_twice_def)
  have first: "busy_twice 2 \<noteq> 0 \<and> (\<forall>j<2. busy_twice j = 0)" by (simp add: busy_twice_def)
  have never: "\<forall>k. always_busy k = 0" by (simp add: always_busy_def)
  have start: "trace flat_panel = []" by (simp add: flat_panel_def)
  have two: "replicate 2 (Delay 10) = [Delay 10, Delay 10]" by (simp add: numeral_2_eq_2)
  from updatePartial_zero_area [of flat_panel sample_fb busy_twice, OF fb area] first
  have "bufSize flat_panel = 0" and
    "updatePartial busy_twice flat_panel =
      Some (flat_panel\<lparr>trace := trace flat_panel @
        [StartWrite,
         WriteCommand 0x00, WriteData 0x1F,
         WriteCommand 0x50, WriteData 0x10, WriteData 0x07,
         WriteCommand 0xE0, WriteData 0x02,
         WriteCommand 0xE5, WriteData 0x5A,
         WriteCommand 0x13,
         WriteCommand 0x12, Delay 10] @ replicate 2 (Delay 10) @ [EndWrite]\<rparr>)"
    by blast+
  moreover from updatePartial_zero_area [of flat_panel sample_fb always_busy, OF fb area] never
  have "updatePartial always_busy flat_panel = None" by blast
  ultimately show ?thesis using fb area readings by (simp add: start two)
qed

text \<open>
  C10. Take two displays whose framebuffers hold the same contents (the same \<open>bufSize\<close>
  bytes; the memory beyond them and the pointers may differ) and which report the same width
  and height, and any two busy lines, whether they ever read ready or not. However many
  readings into its busy wait each call is observed, returned or still polling, the commands
  and data bytes it has sent are the same for both. When both lines do read ready, both calls
  return, what they sent is the same, and with the pauses left out they have added the same
  events to their traces: the readings decide the number of polling pauses and nothing else.
\<close>

theorem emitted_independent_of_busy:
  assumes "frame_contents epd1 = frame_contents epd2"
    and "width epd1 = width epd2" and "height epd1 = height epd2"
  shows "emitted (new_events epd1 (state_of (updatePartial_upto fuel1 busy1 epd1))) =
           emitted (new_events epd2 (state_of (updatePartial_upto fuel2 busy2 epd2))) \<and>
         (\<forall>k1 k2. busy1 k1 \<noteq> 0 \<and> busy2 k2 \<noteq> 0 \<longrightarrow>
            (\<exists>epd1' epd2'.
               updatePartial busy1 epd1 = Some epd1' \<and> updatePartial busy2 epd2 = Some epd2' \<and>
               emitted (new_events epd1 epd1') = emitted (new_events epd2 epd2') \<and>
               filter (\<lambda>e. \<not> is_delay e) (new_events epd1 epd1') =
                 filter (\<lambda>e. \<not> is_delay e) (new_events epd2 epd2')))"
proof (cases "frameBuffer epd1")
  case None
  with assms(1) have None2: "frameBuffer epd2 = None" by (simp add: frame_contents_def)
  have run1: "updatePartial busy1 epd1 = Some epd1" using None by (rule updatePartial_null)
  have run2: "updatePartial busy2 epd2 = Some epd2" using None2 by (rule updatePartial_null)
  have seen: "emitted (new_events epd1 (state_of (updatePartial_upto fuel1 busy1 epd1))) =
      emitted (new_events epd2 (state_of (updatePartial_upto fuel2 busy2 epd2)))"
    by (simp only: emitted_upto_null [OF None] emitted_upto_null [OF None2])
  have idle: "new_events epd epd = []" for epd by (simp add: new_events_def)
  from seen show ?thesis by (simp add: run1 run2 idle)
next
  case (Some fb1)
  with assms(1) obtain fb2 where Some2: "frameBuffer epd2 = Some fb2"
    by (cases "frameBuffer epd2") (simp_all add: frame_contents_def)
  have size: "bufSize epd1 = bufSize epd2" using assms(2,3) by (simp add: bufSize_def)
  define n where "n = nat (sint (bufSize epd2))"
  have n1: "nat (sint (bufSize epd1)) = n" by (simp add: n_def size)
  have "map fb1 [0..<n] = map fb2 [0..<n]"
    using assms(1) Some Some2 by (simp add: frame_contents_def n1 n_def [symmetric])
  then have image: "inverted_image fb1 n = inverted_image fb2 n"
    by (simp only: inverted_image_contents)
  have cycle: "refresh_cycle fb1 n m = refresh_cycle fb2 n m" for m
    by (simp add: refresh_cycle_def image)
  have seen: "emitted (new_events epd1 (state_of (updatePartial_upto fuel1 busy1 epd1))) =
      emitted (new_events epd2 (state_of (updatePartial_upto fuel2 busy2 epd2)))"
    by (simp only: emitted_upto [OF Some] emitted_upto [OF Some2] n1 n_def [symmetric] image)
  have no_delay: "filter (\<lambda>e. \<not> is_delay e) (replicate m (Delay 10)) = []" for m
    by (induction m) simp_all
  have rest: "filter (\<lambda>e. \<not> is_delay e) (refresh_cycle fb2 n m) =
      [StartWrite] @ config_sequence @ [WriteCommand 0x13] @
      map WriteData (inverted_image fb2 n) @ [WriteCommand 0x12, EndWrite]" for m
    by (simp add: refresh_cycle_def no_delay config_sequence_def filter_map comp_def)
  have returned: "\<exists>epd1' epd2'.
      updatePartial busy1 epd1 = Some epd1' \<and> updatePartial busy2 epd2 = Some epd2' \<and>
      emitted (new_events epd1 epd1') = emitted (new_events epd2 epd2') \<and>
      filter (\<lambda>e. \<not> is_delay e) (new_events epd1 epd1') =
        filter (\<lambda>e. \<not> is_delay e) (new_events epd2 epd2')"
    if ready: "busy1 k1 \<noteq> 0 \<and> busy2 k2 \<noteq> 0" for k1 k2
  proof -
    from updatePartial_returns [of epd1 fb1 busy1 k1] Some ready obtain m1 where run1:
      "updatePartial busy1 epd1 = Some (epd1\<lparr>trace := trace epd1 @ refresh_cycle fb2 n m1\<rparr>)"
      unfolding n1 cycle by blast
    from updatePartial_returns [of epd2 fb2 busy2 k2] Some2 ready obtain m2 where run2:
      "updatePartial busy2 epd2 = Some (epd2\<lparr>trace := trace epd2 @ refresh_cycle fb2 n m2\<rparr>)"
      unfolding n_def by blast
    have "emitted (refresh_cycle fb2 n m1) = emitted (refresh_cycle fb2 n m2)"
      by (simp only: emitted_refresh_cycle)
    moreover have "filter (\<lambda>e. \<not> is_delay e) (refresh_cycle fb2 n m1) =
        filter (\<lambda>e. \<not> is_delay e) (refresh_cycle fb2 n m2)"
      by (simp only: rest)
    ultimately show ?thesis using run1 run2 by simp
  qed
  from seen returned show ?thesis by blast
qed

theorem emitted_independent_of_busy_witness:
  "frame_contents small_panel = frame_contents other_panel \<and>
   width small_panel = width other_panel \<and> height small_panel = height other_panel \<and>
   sample_fb 2 \<noteq> other_fb 2 \<and>
   emitted (new_events small_panel (state_of (updatePartial_upto 1 busy_twice small_panel))) =
     emitted (new_events other_panel (state_of (updatePartial_upto 5 always_busy other_panel))) \<and>
   (\<exists>epd1' epd2'.
      updatePartial busy_twice small_panel = Some epd1' \<and>
      updatePartial ready_at_once other_panel = Some epd2' \<and>
      emitted (new_events small_panel epd1') = emitted (new_events other_panel epd2') \<and>
      filter (\<lambda>e. \<not> is_delay e) (new_events small_panel epd1') =
        filter (\<lambda>e. \<not> is_delay e) (new_events other_panel epd2'))"
proof -
  have size: "bufSize other_panel = 2"
    by (simp add: bufSize_def c_div_def other_panel_def signed_divide_int_def)
  have contents: "frame_contents small_panel = frame_contents other_panel"
    by (simp add: frame_contents_def bufSize_small_panel size)
      (simp add: small_panel_def other_panel_def sample_fb_def other_fb_def)
  have dims: "width small_panel = width other_panel" "height small_panel = height other_panel"
    by (simp_all add: small_panel_def other_panel_def)
  have beyond: "sample_fb 2 \<noteq> other_fb 2" by (simp add: sample_fb_def other_fb_def)
  have ready: "busy_twice 2 \<noteq> 0 \<and> ready_at_once 0 \<noteq> 0"
    by (simp add: busy_twice_def ready_at_once_def)
  from emitted_independent_of_busy
    [of small_panel other_panel 1 busy_twice 5 always_busy, OF contents dims]
  have "emitted (new_events small_panel (state_of (updatePartial_upto 1 busy_twice small_panel))) =
     emitted (new_events other_panel (state_of (updatePartial_upto 5 always_busy other_panel)))"
    by blast
  moreover from emitted_independent_of_busy
    [of small_panel other_panel 0 busy_twice 0 ready_at_once, OF contents dims] ready
  have "\<exists>epd1' epd2'.
      updatePartial busy_twice small_panel = Some epd1' \<and>
      updatePartial ready_at_once other_panel = Some epd2' \<and>
      emitted (new_events small_panel epd1') = emitted (new_events other_panel epd2') \<and>
      filter (\<lambda>e. \<not> is_delay e) (new_events small_panel epd1') =
        filter (\<lambda>e. \<not> is_delay e) (new_events other_panel epd2')"
    by blast
  ultimately show ?thesis using contents dims beyond by blast
qed

end
